theory Spec2Isabelle
  imports Complex_Main "HOL-Library.Sublist"
begin

section \<open>Batch scan worker (\<open>BatchScanThread\<close>, antivirus.py lines 125-233)\<close>

text \<open>
  Python \<open>str\<close> values are modelled as \<open>string\<close>, one \<open>char\<close> per code point.
  The Korean user-interface literals of the source are written as ASCII glosses
  (\<open>''normal''\<close> for the status text of code 0, and so on): no claim depends on
  their spelling, only on which literal is chosen.
\<close>

record ScanStats =
  total_scanned :: nat
  clean_files :: nat
  malicious_files :: nat
  suspicious_files :: nat
  errors :: nat
  quarantined :: nat

definition ScanStats_init :: ScanStats where
  "ScanStats_init =
     \<lparr>total_scanned = 0, clean_files = 0, malicious_files = 0,
      suspicious_files = 0, errors = 0, quarantined = 0\<rparr>"

text \<open>
  The dictionary that \<open>scan_file_detailed\<close> returns. A key read with
  \<open>.get(key, default)\<close> is an optional field (\<open>None\<close>: the key is absent);
  \<open>filepath\<close> is the key that \<open>run\<close> adds.
\<close>

record detailed_result =
  status :: "int option"
  threat_type :: string
  threat_name :: "string option"
  md5 :: "string option"
  sha256 :: string
  entropy :: rat
  file_size :: "int option"
  filepath :: string

text \<open>
  The detection engine is the shared library loaded at start-up: \<open>scan_file\<close>
  always exists, \<open>scan_file_detailed\<close> only when \<open>has_detailed_scan\<close>; a call of
  the latter that raises (in the library or while decoding its JSON) is \<open>None\<close>.
\<close>

record engine =
  scan_file :: "string \<Rightarrow> int"
  has_detailed_scan :: bool
  engine_scan_file_detailed :: "string \<Rightarrow> detailed_result option"

definition status_map :: "int \<Rightarrow> string" where
  "status_map code =
     (if code = 0 then ''normal''
      else if code = 1 then ''malicious-signature''
      else if code = 2 then ''malicious-hash''
      else if code = 3 then ''suspicious-heuristic''
      else if code = -1 then ''error''
      else ''unknown'')"

definition scan_file_basic :: "engine \<Rightarrow> string \<Rightarrow> string \<times> int" where
  "scan_file_basic eng path =
     (let result = scan_file eng path;
          status_text = status_map result
      in (''['' @ status_text @ ''] '' @ path, result))"

definition label_of_msg :: "string \<Rightarrow> string" where
  \<comment> \<open>\<open>msg.split(']')[0].replace('[', '')\<close>\<close>
  "label_of_msg msg = filter (\<lambda>c. c \<noteq> CHR ''['') (takeWhile (\<lambda>c. c \<noteq> CHR '']'') msg)"

definition scan_file_detailed :: "engine \<Rightarrow> string \<Rightarrow> detailed_result" where
  "scan_file_detailed eng path =
     (if \<not> has_detailed_scan eng then
        (let (msg, code) = scan_file_basic eng path
         in \<lparr>status = Some code, threat_type = ''unknown'',
              threat_name = Some (label_of_msg msg), md5 = Some '''', sha256 = '''',
              entropy = 0, file_size = Some 0, filepath = ''''\<rparr>)
      else
        (case engine_scan_file_detailed eng path of
           Some d \<Rightarrow> d
         | None \<Rightarrow>
             (let (msg, code) = scan_file_basic eng path
              in \<lparr>status = Some code, threat_type = ''unknown'',
                   threat_name = Some ''Scan Error'', md5 = Some '''', sha256 = '''',
                   entropy = 0, file_size = Some 0, filepath = ''''\<rparr>)))"

text \<open>The payload of \<open>stats_update\<close>: a dictionary with these five keys.\<close>

record stats_snapshot =
  total :: nat
  clean :: nat
  malicious :: nat
  suspicious :: nat
  errors_count :: nat

datatype event =
    Progress nat
  | ResultMsg string
  | ResultDetailed detailed_result
  | StatsUpdate stats_snapshot
  | Finished

text \<open>
  What the worker does, in order: \<open>Scan p\<close> is the call of the scan function on
  \<open>p\<close> (line 191 or 212), which has returned when the next action starts;
  \<open>Emit e\<close> is a signal emission.
\<close>

datatype action = Scan string | Emit event

definition count_status :: "int \<Rightarrow> ScanStats \<Rightarrow> ScanStats" where
  \<comment> \<open>lines 196-204 and 214-222\<close>
  "count_status code st =
     (let st1 = st\<lparr>total_scanned := total_scanned st + 1\<rparr>
      in if code = 0 then st1\<lparr>clean_files := clean_files st1 + 1\<rparr>
         else if code = 1 \<or> code = 2 then st1\<lparr>malicious_files := malicious_files st1 + 1\<rparr>
         else if code = 3 then st1\<lparr>suspicious_files := suspicious_files st1 + 1\<rparr>
         else st1\<lparr>errors := errors st1 + 1\<rparr>)"

definition get_status :: "detailed_result \<Rightarrow> int" where
  \<comment> \<open>\<open>result_dict.get('status', -1)\<close>\<close>
  "get_status d = (case status d of Some c \<Rightarrow> c | None \<Rightarrow> -1)"

definition get_threat_name :: "detailed_result \<Rightarrow> string" where
  \<comment> \<open>\<open>result_dict.get('threat_name', 'Unknown')\<close>\<close>
  "get_threat_name d = (case threat_name d of Some t \<Rightarrow> t | None \<Rightarrow> ''Unknown'')"

text \<open>
  \<open>os.path.basename\<close> (the POSIX one): everything after the last slash.
\<close>

definition basename :: "string \<Rightarrow> string" where
  "basename p = rev (takeWhile (\<lambda>c. c \<noteq> CHR ''/'') (rev p))"

definition scan_item :: "engine \<Rightarrow> bool \<Rightarrow> string \<Rightarrow> ScanStats \<Rightarrow> action list \<times> ScanStats" where
  \<comment> \<open>the body of one iteration, lines 190-222\<close>
  "scan_item eng use_detailed path st =
     (if use_detailed then
        (let result_dict = (scan_file_detailed eng path)\<lparr>filepath := path\<rparr>;
             st' = count_status (get_status result_dict) st;
             msg = ''['' @ status_map (get_status result_dict) @ ''] ''
                   @ get_threat_name result_dict @ '' - '' @ basename path
         in ([Scan path, Emit (ResultDetailed result_dict), Emit (ResultMsg msg)], st'))
      else
        (let (msg, code) = scan_file_basic eng path
         in ([Scan path, Emit (ResultMsg msg)], count_status code st)))"

definition snapshot :: "ScanStats \<Rightarrow> stats_snapshot" where
  "snapshot st =
     \<lparr>total = total_scanned st, clean = clean_files st, malicious = malicious_files st,
      suspicious = suspicious_files st, errors_count = errors st\<rparr>"

definition stopped_msg :: string where
  "stopped_msg = ''[stopped] the user stopped the scan''"

text \<open>
  The loop of \<open>run\<close>. \<open>stop_requested i\<close> is what the read of
  \<open>self._stop_requested\<close> at the top of iteration \<open>i\<close> (counted from 1, as
  \<open>enumerate(file_list, 1)\<close> does) returns: the flag is written by another thread
  (\<open>stop\<close>, line 182) and read nowhere else.
\<close>

fun run_loop ::
  "engine \<Rightarrow> bool \<Rightarrow> (nat \<Rightarrow> bool) \<Rightarrow> nat \<Rightarrow> ScanStats \<Rightarrow> string list \<Rightarrow> action list \<times> ScanStats"
where
  "run_loop eng use_detailed stop_requested i st [] = ([], st)"
| "run_loop eng use_detailed stop_requested i st (path # rest) =
     (if stop_requested i then ([Emit (ResultMsg stopped_msg)], st)
      else
        (let (acts, st') = scan_item eng use_detailed path st;
             (more, st'') = run_loop eng use_detailed stop_requested (Suc i) st' rest
         in (acts @ [Emit (StatsUpdate (snapshot st')), Emit (Progress i)] @ more, st'')))"

definition run :: "engine \<Rightarrow> bool \<Rightarrow> (nat \<Rightarrow> bool) \<Rightarrow> string list \<Rightarrow> action list" where
  "run eng use_detailed stop_requested file_list =
     fst (run_loop eng use_detailed stop_requested 1 ScanStats_init file_list) @ [Emit Finished]"

definition is_scan :: "action \<Rightarrow> bool" where
  "is_scan a = (case a of Scan p \<Rightarrow> True | Emit e \<Rightarrow> False)"

definition completed :: "action list \<Rightarrow> nat" where
  \<comment> \<open>the number of per-file scans that have returned within a trace\<close>
  "completed tr = length (filter is_scan tr)"

definition bucket_sum :: "stats_snapshot \<Rightarrow> nat" where
  "bucket_sum s = clean s + malicious s + suspicious s + errors_count s"

fun scanned :: "action list \<Rightarrow> string list" where
  \<comment> \<open>the paths handed to the scan function, in order\<close>
  "scanned [] = []"
| "scanned (Scan p # tr) = p # scanned tr"
| "scanned (Emit e # tr) = scanned tr"

text \<open>An engine without the detailed entry point, for the worked examples.\<close>

definition demo_engine :: engine where
  "demo_engine =
     \<lparr>scan_file = (\<lambda>p. if p = ''/d/clean.txt'' then 0 else if p = ''/d/virus.exe'' then 1 else 3),
      has_detailed_scan = False,
      engine_scan_file_detailed = (\<lambda>p. None)\<rparr>"

section \<open>Work enumeration (antivirus.py lines 1116-1286)\<close>

text \<open>
  \<open>os.path.join\<close> of two components (the POSIX one): an absolute second component
  replaces the first; otherwise the two are joined by one slash.
\<close>

definition os_path_join :: "string \<Rightarrow> string \<Rightarrow> string" where
  "os_path_join a b =
     (if take 1 b = ''/'' then b
      else if a = [] \<or> last a = CHR ''/'' then a @ b
      else a @ ''/'' @ b)"

text \<open>
  What \<open>os.walk\<close> yields: one \<open>(root, files)\<close> pair per directory (the list of
  sub-directory names is ignored by every caller).
\<close>

type_synonym walk = "(string \<times> string list) list"

text \<open>
  The inner loop \<open>for name in files\<close> with its cap check: the \<open>break\<close> leaves this
  loop only.
\<close>

fun add_files :: "nat \<Rightarrow> string \<Rightarrow> string list \<Rightarrow> string list \<Rightarrow> string list" where
  "add_files cap dir [] file_list = file_list"
| "add_files cap dir (name # names) file_list =
     (let file_list' = file_list @ [os_path_join dir name]
      in if length file_list' > cap then file_list' else add_files cap dir names file_list')"

text \<open>The outer loop \<open>for root, _, files in os.walk(...)\<close>: it has no exit of its own.\<close>

fun walk_files :: "nat \<Rightarrow> walk \<Rightarrow> string list \<Rightarrow> string list" where
  "walk_files cap [] file_list = file_list"
| "walk_files cap ((dir, files) # rest) file_list =
     walk_files cap rest (add_files cap dir files file_list)"

text \<open>
  \<open>full_system_scan\<close>: \<open>reply\<close> is the answer to the confirmation dialog, the walk
  is that of the root path; the result is the list handed to \<open>_start_batch_scan\<close>,
  if it is called.
\<close>

definition full_system_scan :: "bool \<Rightarrow> walk \<Rightarrow> string list option" where
  "full_system_scan reply w =
     (if reply then
        (let file_list = walk_files 10000 w []
         in if file_list \<noteq> [] then Some file_list else None)
      else None)"

text \<open>
  A drive's walk may raise part-way (the \<open>try\<close> of lines 1163, 1206 and 1271):
  the flag says whether it does, after yielding the directories listed.
\<close>

type_synonym drive_walk = "walk \<times> bool"

definition scan_drive :: "bool \<Rightarrow> drive_walk \<Rightarrow> string list option" where
  \<comment> \<open>lines 1161-1176, once a drive is chosen; \<open>scan_usb\<close> (lines 1269-1284) is the same code\<close>
  "scan_drive reply dw =
     (if reply then
        (let file_list = walk_files 50000 (fst dw) []
         in if snd dw then None
            else if file_list \<noteq> [] then Some file_list else None)
      else None)"

definition scan_usb :: "bool \<Rightarrow> drive_walk \<Rightarrow> string list option" where
  "scan_usb reply dw =
     (if reply then
        (let file_list = walk_files 50000 (fst dw) []
         in if snd dw then None
            else if file_list \<noteq> [] then Some file_list else None)
      else None)"

text \<open>
  \<open>scan_all_drives\<close>: one shared \<open>file_list\<close> across the drives; a drive whose
  walk raises is left (\<open>continue\<close>), the files it had added stay in the list.
\<close>

fun all_drives_files :: "drive_walk list \<Rightarrow> string list \<Rightarrow> string list" where
  "all_drives_files [] file_list = file_list"
| "all_drives_files (dw # rest) file_list =
     all_drives_files rest (walk_files 100000 (fst dw) file_list)"

definition scan_all_drives :: "bool \<Rightarrow> drive_walk list \<Rightarrow> string list option" where
  "scan_all_drives reply drives =
     (if reply then
        (let file_list = all_drives_files drives []
         in if file_list \<noteq> [] then Some file_list else None)
      else None)"

text \<open>Decimal digits of a natural number, for numbered file names in examples.\<close>

fun decimal :: "nat \<Rightarrow> string" where
  "decimal n =
     (if n < 10 then [char_of (48 + n)] else decimal (n div 10) @ [char_of (48 + n mod 10)])"

definition big_directory :: walk where
  \<comment> \<open>a root directory with 10001 files, then two directories with one file each\<close>
  "big_directory =
     [(''/'', map (\<lambda>i. ''f'' @ decimal i) [0..<10001]),
      (''/a'', [''x'']),
      (''/b'', [''y''])]"

declare decimal.simps [simp del]

section \<open>Hash registration (\<open>AntivirusGUI.add_hash\<close>, antivirus.py lines 1756-1786)\<close>

text \<open>
  The two line edits hold Python \<open>str\<close> values, here lists of Unicode code points:
  \<open>len\<close> counts code points. \<open>str.strip\<close> removes the code points for which
  \<open>str.isspace\<close> holds from both ends. \<open>str.lower\<close> is a function of the library
  that can change the length of a string (it turns U+0130 into two code points); it
  is a parameter of \<open>add_hash\<close>, and nothing is assumed about it.
\<close>

type_synonym unicode = "nat list"

definition py_isspace :: "nat \<Rightarrow> bool" where
  "py_isspace c =
     (c \<in> {9, 10, 11, 12, 13, 28, 29, 30, 31, 32, 133, 160, 5760, 8232, 8233, 8239, 8287, 12288}
      \<or> (8192 \<le> c \<and> c \<le> 8202))"

definition strip :: "unicode \<Rightarrow> unicode" where
  "strip s = rev (dropWhile py_isspace (rev (dropWhile py_isspace s)))"

definition encodable :: "unicode \<Rightarrow> bool" where
  \<comment> \<open>\<open>.encode('utf-8')\<close> raises on a surrogate code point\<close>
  "encodable s = list_all (\<lambda>c. \<not> (55296 \<le> c \<and> c \<le> 57343)) s"

text \<open>
  The arguments of one \<open>engine.add_hash\<close> call, and what the user sees. The engine's
  entry point returns the new number of hashes, or raises (\<open>None\<close>). The two
  \<open>encode\<close> calls are evaluated inside the \<open>try\<close>, before the engine is called.
\<close>

record add_hash_call =
  hash_arg :: unicode
  threat_arg :: unicode
  severity_arg :: int
  is_sha256_arg :: bool

datatype add_hash_outcome =
    NoCapability
  | MissingInput
  | WrongLength nat
  | EncodeFailed
  | Registered add_hash_call int
  | RegistrationFailed add_hash_call

definition add_hash ::
  "(unicode \<Rightarrow> unicode) \<Rightarrow> bool \<Rightarrow> (add_hash_call \<Rightarrow> int option) \<Rightarrow> unicode \<Rightarrow> unicode \<Rightarrow> int
     \<Rightarrow> string \<Rightarrow> add_hash_outcome"
where
  "add_hash str_lower has_add_hash engine_add_hash hash_text name_text severity combo_text =
     (if \<not> has_add_hash then NoCapability
      else
        (let hash_value = str_lower (strip hash_text);
             threat = strip name_text;
             is_sha256 = (combo_text = ''SHA256'')
         in if hash_value = [] \<or> threat = [] then MissingInput
            else
              (let expected_len = (if is_sha256 then 64 else 32 :: nat)
               in if length hash_value \<noteq> expected_len then WrongLength expected_len
                  else if \<not> encodable hash_value \<or> \<not> encodable threat then EncodeFailed
                  else
                    (let call = \<lparr>hash_arg = hash_value, threat_arg = threat,
                                  severity_arg = severity, is_sha256_arg = is_sha256\<rparr>
                     in case engine_add_hash call of
                          Some count \<Rightarrow> Registered call count
                        | None \<Rightarrow> RegistrationFailed call))))"

definition adapter_invoked :: "add_hash_outcome \<Rightarrow> bool" where
  "adapter_invoked out =
     (case out of Registered c n \<Rightarrow> True | RegistrationFailed c \<Rightarrow> True | _ \<Rightarrow> False)"

definition is_hex_char :: "nat \<Rightarrow> bool" where
  "is_hex_char n = ((48 \<le> n \<and> n \<le> 57) \<or> (97 \<le> n \<and> n \<le> 102) \<or> (65 \<le> n \<and> n \<le> 70))"

definition is_hex :: "unicode \<Rightarrow> bool" where
  "is_hex s = list_all is_hex_char s"

definition code_points :: "string \<Rightarrow> unicode" where
  \<comment> \<open>an ASCII literal as a list of code points\<close>
  "code_points s = map of_char s"

text \<open>
  \<open>str.lower\<close> on strings made of ASCII characters and U+0130 only, which is all
  the examples below use: \<open>A\<close>-\<open>Z\<close> become \<open>a\<close>-\<open>z\<close>, and U+0130 becomes
  U+0069 U+0307.
\<close>

definition lower_ascii_0130 :: "unicode \<Rightarrow> unicode" where
  "lower_ascii_0130 s =
     concat (map (\<lambda>c. if c = 304 then [105, 775]
                        else if 65 \<le> c \<and> c \<le> 90 then [c + 32] else [c]) s)"

section \<open>Quarantine store (antivirus.py lines 1399-1703)\<close>

text \<open>
  The file system is a map from paths to contents. A sidecar (\<open>.meta\<close>) file holds
  the JSON object that \<open>quarantine_file\<close> dumps; every other file holds bytes.
\<close>

record QuarantineRecord =
  original_path :: string
  original_filename :: string
  record_threat_name :: string
  quarantine_time :: string
  original_deleted :: bool

datatype content = Bytes string | Meta QuarantineRecord

type_synonym filesystem = "string \<rightharpoonup> content"

text \<open>
  Exceptions of the file operations: \<open>PermissionError\<close> has a handler of its own
  in \<open>quarantine_file\<close>; \<open>OtherError\<close> stands for every other \<open>Exception\<close>.
\<close>

datatype io_error = PermissionError | OtherError

text \<open>
  \<open>os.remove\<close>: \<open>denied\<close> is the error the operating system answers this call
  with, if any (a lock, a missing permission); a missing file is an error too.
\<close>

definition os_remove :: "io_error option \<Rightarrow> string \<Rightarrow> filesystem \<Rightarrow> io_error + filesystem" where
  "os_remove denied path fs =
     (case denied of
        Some e \<Rightarrow> Inl e
      | None \<Rightarrow> (if fs path = None then Inl OtherError else Inr (fs(path := None))))"

datatype dialog =
    Question string
  | Information string
  | Warning string
  | Critical string

text \<open>
  The loop of \<open>clear_quarantine\<close> (lines 1697-1699). It runs inside one \<open>try\<close>:
  the first removal that raises ends it. The result is the file system reached and
  the exception, if one was raised.
\<close>

fun clear_loop ::
  "(string \<Rightarrow> io_error option) \<Rightarrow> string \<Rightarrow> string list \<Rightarrow> filesystem \<Rightarrow> filesystem \<times> io_error option"
where
  "clear_loop denied qdir [] fs = (fs, None)"
| "clear_loop denied qdir (filename # rest) fs =
     (case os_remove (denied (os_path_join qdir filename)) (os_path_join qdir filename) fs of
        Inl e \<Rightarrow> (fs, Some e)
      | Inr fs' \<Rightarrow> clear_loop denied qdir rest fs')"

text \<open>
  \<open>clear_quarantine\<close>: \<open>reply\<close> answers the confirmation, \<open>listing\<close> is what
  \<open>os.listdir(QUARANTINE_DIR)\<close> returns or raises. The method returns nothing: its
  whole result is the file system and the dialogs shown.
\<close>

definition clear_quarantine ::
  "bool \<Rightarrow> string \<Rightarrow> io_error + string list \<Rightarrow> (string \<Rightarrow> io_error option) \<Rightarrow> filesystem
     \<Rightarrow> filesystem \<times> dialog list"
where
  "clear_quarantine reply qdir listing denied fs =
     (if reply then
        (case listing of
           Inl e \<Rightarrow> (fs, [Question ''clear all'', Critical ''delete failed''])
         | Inr names \<Rightarrow>
             (case clear_loop denied qdir names fs of
                (fs', None) \<Rightarrow> (fs', [Question ''clear all'', Information ''quarantine emptied''])
              | (fs', Some e) \<Rightarrow> (fs', [Question ''clear all'', Critical ''delete failed''])))
      else (fs, [Question ''clear all'']))"

definition remove_all :: "string list \<Rightarrow> filesystem \<Rightarrow> filesystem" where
  \<comment> \<open>the file system without the given paths\<close>
  "remove_all paths fs = (\<lambda>p. if p \<in> set paths then None else fs p)"

definition two_file_store :: filesystem where
  "two_file_store =
     [''/q/20260101_120000_aaaaaaaa.exe'' \<mapsto> Bytes ''MZ'',
      ''/q/20260101_120001_bbbbbbbb.bin'' \<mapsto> Bytes ''data'']"

section \<open>Quarantine of one file (\<open>AntivirusGUI.quarantine_file\<close>, lines 1399-1565)\<close>

text \<open>
  \<open>os.path.splitext\<close> on a file name without directory part: the extension starts
  at the last dot, unless only dots come before it.
\<close>

definition splitext :: "string \<Rightarrow> string \<times> string" where
  "splitext name =
     (let ext = rev (takeWhile (\<lambda>c. c \<noteq> CHR ''.'') (rev name));
          stem = take (length name - length ext - 1) name
      in if CHR ''.'' \<in> set name \<and> list_ex (\<lambda>c. c \<noteq> CHR ''.'') stem
         then (stem, CHR ''.'' # ext) else (name, ''''))"

text \<open>\<open>datetime.now()\<close> and the two \<open>strftime\<close> formats of the source.\<close>

record datetime =
  dt_year :: nat
  dt_month :: nat
  dt_day :: nat
  dt_hour :: nat
  dt_minute :: nat
  dt_second :: nat
  dt_microsecond :: nat

definition zero_pad :: "nat \<Rightarrow> nat \<Rightarrow> string" where
  "zero_pad width n = replicate (width - length (decimal n)) CHR ''0'' @ decimal n"

definition strftime_compact :: "datetime \<Rightarrow> string" where
  \<comment> \<open>\<open>'%Y%m%d_%H%M%S'\<close>\<close>
  "strftime_compact d =
     zero_pad 4 (dt_year d) @ zero_pad 2 (dt_month d) @ zero_pad 2 (dt_day d) @ ''_''
     @ zero_pad 2 (dt_hour d) @ zero_pad 2 (dt_minute d) @ zero_pad 2 (dt_second d)"

definition strftime_long :: "datetime \<Rightarrow> string" where
  \<comment> \<open>\<open>'%Y-%m-%d %H:%M:%S'\<close>\<close>
  "strftime_long d =
     zero_pad 4 (dt_year d) @ ''-'' @ zero_pad 2 (dt_month d) @ ''-'' @ zero_pad 2 (dt_day d)
     @ '' '' @ zero_pad 2 (dt_hour d) @ '':'' @ zero_pad 2 (dt_minute d) @ '':''
     @ zero_pad 2 (dt_second d)"

text \<open>
  Lines 1410-1419: the name of the copy in the quarantine directory.
  \<open>md5_hexdigest\<close> is \<open>hashlib.md5(...).hexdigest()\<close> of the UTF-8 bytes of its
  argument, a library function taken as a parameter.
\<close>

definition quarantine_filename :: "(string \<Rightarrow> string) \<Rightarrow> datetime \<Rightarrow> string \<Rightarrow> string" where
  "quarantine_filename md5_hexdigest now path =
     (let filename = basename path;
          timestamp = strftime_compact now;
          (name_part, ext_part) = splitext filename;
          safe_name = take 8 (md5_hexdigest name_part)
      in timestamp @ ''_'' @ safe_name @ ext_part)"

text \<open>
  \<open>str.lower\<close> on paths and process names, for code points below 256: the letters
  that change are \<open>A\<close>-\<open>Z\<close> and the capital letters of Latin-1.
\<close>

definition lower_char :: "char \<Rightarrow> char" where
  "lower_char c =
     (let n = (of_char c :: nat)
      in if (65 \<le> n \<and> n \<le> 90) \<or> (192 \<le> n \<and> n \<le> 222 \<and> n \<noteq> 215)
         then char_of (n + 32) else c)"

definition lower :: "string \<Rightarrow> string" where
  "lower s = map lower_char s"

text \<open>
  The processes that \<open>psutil.process_iter\<close> shows. A process's name is \<open>None\<close>
  when psutil could not read it; \<open>open_files\<close> and \<open>kill\<close> may raise.
\<close>

datatype psutil_error = NoSuchProcess | AccessDenied | ZombieProcess | OtherPsutilError

record process =
  pid :: nat
  proc_name :: "string option"
  open_files :: "psutil_error + string list"
  kill_error :: "psutil_error option"

datatype psutil = NotInstalled | Processes "process list"

definition critical_processes :: "string list" where
  "critical_processes = [''system'', ''csrss.exe'', ''smss.exe'', ''wininit.exe'']"

datatype item_result = NoKill | Killed | Raised psutil_error

text \<open>
  The inner loop of \<open>force_close_file_handles\<close> (lines 1438-1451) over the open
  files of one process. \<open>.lower()\<close> on a name that is \<open>None\<close> raises
  \<open>AttributeError\<close>, which is none of the three psutil exceptions.
\<close>

fun check_open_files :: "string \<Rightarrow> process \<Rightarrow> string list \<Rightarrow> item_result" where
  "check_open_files abs_path proc [] = NoKill"
| "check_open_files abs_path proc (item_path # items) =
     (if lower item_path = abs_path then
        (case proc_name proc of
           None \<Rightarrow> Raised OtherPsutilError
         | Some name \<Rightarrow>
             if lower name \<in> set critical_processes then check_open_files abs_path proc items
             else (case kill_error proc of Some e \<Rightarrow> Raised e | None \<Rightarrow> Killed))
      else check_open_files abs_path proc items)"

text \<open>
  The outer loop over all processes (lines 1435-1453): the three psutil exceptions
  skip the process, any other exception ends the function with \<open>False\<close>. The result
  is the list of process ids killed and the value returned.
\<close>

fun sweep :: "string \<Rightarrow> process list \<Rightarrow> nat list \<Rightarrow> nat list \<times> bool" where
  "sweep abs_path [] killed = (killed, length killed > 0)"
| "sweep abs_path (proc # procs) killed =
     (case open_files proc of
        Inl e \<Rightarrow> if e = OtherPsutilError then (killed, False) else sweep abs_path procs killed
      | Inr items \<Rightarrow>
          (case check_open_files abs_path proc items of
             NoKill \<Rightarrow> sweep abs_path procs killed
           | Killed \<Rightarrow> sweep abs_path procs (killed @ [pid proc])
           | Raised e \<Rightarrow>
               if e = OtherPsutilError then (killed, False) else sweep abs_path procs killed))"

definition force_close_file_handles ::
  "(string \<Rightarrow> string) \<Rightarrow> psutil \<Rightarrow> string \<Rightarrow> nat list \<times> bool"
where
  "force_close_file_handles abspath ps file_path =
     (case ps of
        NotInstalled \<Rightarrow> ([], False)
      | Processes procs \<Rightarrow> sweep (lower (abspath file_path)) procs [])"

text \<open>
  The surroundings of one \<open>quarantine_file\<close> call. \<open>attempt_outcome n\<close> says how
  far the \<open>try\<close> body of attempt \<open>n\<close> (counted from 0) gets; \<open>psutil_at n\<close> is
  what psutil shows during attempt \<open>n\<close>.
\<close>

datatype attempt_outcome =
    ReadFails io_error
  | WriteFails io_error
  | RemoveFails io_error
  | RemoveSucceeds

record world =
  quarantine_dir :: string
  md5_hexdigest :: "string \<Rightarrow> string"
  os_path_abspath :: "string \<Rightarrow> string"
  now_name :: datetime
  now_meta :: datetime
  attempt_outcome :: "nat \<Rightarrow> attempt_outcome"
  psutil_at :: "nat \<Rightarrow> psutil"
  manual_delete_reply :: bool
  meta_write_error :: "io_error option"

text \<open>
  What a call does besides changing files: dialogs, forced releases (with the attempt
  they belong to and the processes killed) and the refresh of the quarantine table.
  Waiting, logging and garbage collection are not recorded.
\<close>

datatype q_action =
    Dialog dialog
  | ForceClose nat "nat list"
  | RefreshQuarantine

definition max_retries :: nat where
  "max_retries = 5"

text \<open>
  The \<open>try\<close> body of one attempt (lines 1472-1490): read the whole file, write it
  to the quarantine path, remove the original. A write that raises is taken to leave
  the store as it was.
\<close>

definition attempt_body ::
  "world \<Rightarrow> string \<Rightarrow> string \<Rightarrow> nat \<Rightarrow> filesystem \<Rightarrow> io_error \<times> filesystem + filesystem"
where
  "attempt_body w path quarantine_path attempt fs =
     (case attempt_outcome w attempt of
        ReadFails e \<Rightarrow> Inl (e, fs)
      | outcome \<Rightarrow>
          (case fs path of
             None \<Rightarrow> Inl (OtherError, fs)
           | Some file_data \<Rightarrow>
               (case outcome of
                  WriteFails e \<Rightarrow> Inl (e, fs)
                | _ \<Rightarrow>
                    (let fs1 = fs(quarantine_path \<mapsto> file_data)
                     in case os_remove (case outcome of RemoveFails e \<Rightarrow> Some e | _ \<Rightarrow> None)
                               path fs1 of
                          Inl e \<Rightarrow> Inl (e, fs1)
                        | Inr fs2 \<Rightarrow> Inr fs2))))"

datatype loop_result =
    LoopEnd bool "io_error option" filesystem "q_action list"
  | LoopRaised io_error filesystem "q_action list"

text \<open>
  The retry loop \<open>for attempt in range(max_retries)\<close> (lines 1469-1517), over the
  attempts still to make; \<open>last_error\<close>, the file system and the actions so far are
  threaded through.
\<close>

fun retry_loop ::
  "world \<Rightarrow> string \<Rightarrow> string \<Rightarrow> nat list \<Rightarrow> io_error option \<Rightarrow> filesystem \<Rightarrow> q_action list
     \<Rightarrow> loop_result"
where
  "retry_loop w path quarantine_path [] last_error fs acts = LoopEnd False last_error fs acts"
| "retry_loop w path quarantine_path (attempt # rest) last_error fs acts =
     (case attempt_body w path quarantine_path attempt fs of
        Inr fs' \<Rightarrow> LoopEnd True last_error fs' acts
      | Inl (PermissionError, fs') \<Rightarrow>
          if attempt < max_retries - 1 then
            (let acts' =
               (if attempt \<ge> 2 then
                  acts @ [ForceClose attempt
                            (fst (force_close_file_handles (os_path_abspath w) (psutil_at w attempt) path))]
                else acts)
             in retry_loop w path quarantine_path rest (Some PermissionError) fs' acts')
          else LoopEnd False (Some PermissionError) fs' acts
      | Inl (OtherError, fs') \<Rightarrow>
          if attempt < max_retries - 1 then
            retry_loop w path quarantine_path rest (Some OtherError) fs' acts
          else LoopRaised OtherError fs' acts)"

definition quarantine_path_of :: "world \<Rightarrow> string \<Rightarrow> string" where
  "quarantine_path_of w path =
     os_path_join (quarantine_dir w) (quarantine_filename (md5_hexdigest w) (now_name w) path)"

definition meta_path_of :: "world \<Rightarrow> string \<Rightarrow> string" where
  "meta_path_of w path = quarantine_path_of w path @ ''.meta''"

text \<open>
  \<open>quarantine_file\<close>. Every exception inside ends in the handler of line 1564, which
  shows a dialog: the method never raises. The result is the file system, the
  statistics (the \<open>quarantined\<close> counter) and the actions, in order.
\<close>

definition quarantine_file ::
  "world \<Rightarrow> string \<Rightarrow> string \<Rightarrow> filesystem \<Rightarrow> ScanStats \<Rightarrow> filesystem \<times> ScanStats \<times> q_action list"
where
  "quarantine_file w path threat fs stats =
     (if fs path = None then (fs, stats, [Dialog (Warning ''file not found'')])
      else
        (case retry_loop w path (quarantine_path_of w path) [0..<max_retries] None fs [] of
           LoopRaised e fs' acts \<Rightarrow> (fs', stats, acts @ [Dialog (Critical ''quarantine failed'')])
         | LoopEnd success last_error fs' acts \<Rightarrow>
             (let acts1 =
                (if \<not> success then
                   acts @ [Dialog (Question ''file in use'')]
                     @ (if manual_delete_reply w
                        then [Dialog (Information ''manual delete needed'')] else [])
                 else acts)
              in case meta_write_error w of
                   Some e \<Rightarrow> (fs', stats, acts1 @ [Dialog (Critical ''quarantine failed'')])
                 | None \<Rightarrow>
                     (fs'(meta_path_of w path \<mapsto>
                        Meta \<lparr>original_path = path, original_filename = basename path,
                              record_threat_name = threat,
                              quarantine_time = strftime_long (now_meta w),
                              original_deleted = success\<rparr>),
                      stats\<lparr>quarantined := quarantined stats + 1\<rparr>,
                      acts1 @ [RefreshQuarantine,
                               Dialog (if success then Information ''quarantined''
                                       else Warning ''partial success'')]))))"

text \<open>Reading the parts of a result, and the vocabulary of the statements below.\<close>

definition result_fs :: "filesystem \<times> ScanStats \<times> q_action list \<Rightarrow> filesystem" where
  "result_fs r = fst r"

definition result_stats :: "filesystem \<times> ScanStats \<times> q_action list \<Rightarrow> ScanStats" where
  "result_stats r = fst (snd r)"

definition result_actions :: "filesystem \<times> ScanStats \<times> q_action list \<Rightarrow> q_action list" where
  "result_actions r = snd (snd r)"


definition is_force_close :: "q_action \<Rightarrow> bool" where
  "is_force_close a = (case a of ForceClose n ks \<Rightarrow> True | _ \<Rightarrow> False)"





text \<open>
  Worked example: a document in \<open>/srv/share\<close> that cannot be removed during any
  attempt, while an editor has another file open whose path differs from the
  target's in letter case only. The digests are those of \<open>hashlib.md5\<close> for the two
  names used.
\<close>

definition demo_md5 :: "string \<Rightarrow> string" where
  "demo_md5 s =
     (if s = ''invoice'' then ''e5f96ae00443877315fbb64fd3d90005''
      else if s = ''report'' then ''e98d2f001da5678b39482efbdf5770dc''
      else '''')"

definition editor :: process where
  "editor =
     \<lparr>pid = 4242, proc_name = Some ''editor'',
      open_files = Inr [''/srv/share/Report.DOC''], kill_error = None\<rparr>"

definition locked_world :: world where
  "locked_world =
     \<lparr>quarantine_dir = ''/opt/av/quarantine'',
      md5_hexdigest = demo_md5,
      os_path_abspath = (\<lambda>p. p),
      now_name = \<lparr>dt_year = 2026, dt_month = 1, dt_day = 8, dt_hour = 9, dt_minute = 5,
                   dt_second = 7, dt_microsecond = 120000\<rparr>,
      now_meta = \<lparr>dt_year = 2026, dt_month = 1, dt_day = 8, dt_hour = 9, dt_minute = 5,
                   dt_second = 20, dt_microsecond = 0\<rparr>,
      attempt_outcome = (\<lambda>n. RemoveFails PermissionError),
      psutil_at = (\<lambda>n. if n = 2 then Processes [editor] else Processes []),
      manual_delete_reply = False,
      meta_write_error = None\<rparr>"

definition share_fs :: filesystem where
  "share_fs = [''/srv/share/report.doc'' \<mapsto> Bytes ''macro'']"

section \<open>The window's side of a scan (\<open>AntivirusGUI\<close>, antivirus.py lines 1288-1353)\<close>






















text \<open>
  The part of the window's state that starting and finishing a scan touch: which
  buttons are enabled, the progress bar, the number of result rows, the statistics
  shown, the history, the thread object held in \<open>self.scan_thread\<close>, and the threads
  started and not yet finished. A thread is given by its file list, its
  \<open>use_detailed\<close> flag and the scan type that the slot of its \<open>finished\<close> signal has
  captured. The quick-scan button is a local of \<open>create_toolbar\<close>.
\<close>

record scan_job =
  job_files :: "string list"
  job_use_detailed :: bool
  job_scan_type :: string

record history_entry =
  entry_time :: string
  entry_type :: string
  entry_total :: nat
  entry_threats :: nat
  entry_status :: string

record gui_state =
  select_btn :: bool
  folder_btn :: bool
  full_scan_btn :: bool
  drive_scan_btn :: bool
  all_drives_btn :: bool
  usb_scan_btn :: bool
  stop_scan_btn :: bool
  quick_scan_btn :: bool
  progress_maximum :: nat
  progress_value :: int
  result_rows :: nat
  window_stats :: ScanStats
  scan_history :: "history_entry list"
  scan_thread :: "scan_job option"
  running :: "scan_job list"



definition update_stats :: "stats_snapshot \<Rightarrow> gui_state \<Rightarrow> gui_state" where
  \<comment> \<open>the slot of \<open>stats_update\<close> (lines 1355-1360)\<close>
  "update_stats s st =
     st\<lparr>window_stats := (window_stats st)
            \<lparr>total_scanned := total s, clean_files := clean s, malicious_files := malicious s,
             suspicious_files := suspicious s, errors := errors_count s\<rparr>\<rparr>"








text \<open>
  In what is left of the worker's trace, every result signal is for a path whose scan
  is among \<open>S\<close> or comes earlier in the trace; in a log, every quarantine call is
  for a path whose scan has started earlier.
\<close>

fun covered :: "string set \<Rightarrow> action list \<Rightarrow> bool" where
  "covered S [] = True"
| "covered S (Scan p # tr) = covered (insert p S) tr"
| "covered S (Emit (ResultDetailed d) # tr) = (filepath d \<in> S \<and> covered S tr)"
| "covered S (Emit e # tr) = covered S tr"



section \<open>Properties of the batch scan worker\<close>

lemma count_status_total: "total_scanned (count_status c st) = Suc (total_scanned st)"
  by (simp add: count_status_def Let_def)

lemma count_status_buckets:
  "clean_files (count_status c st) + malicious_files (count_status c st)
     + suspicious_files (count_status c st) + errors (count_status c st)
   = Suc (clean_files st + malicious_files st + suspicious_files st + errors st)"
  by (simp add: count_status_def Let_def)

lemma scan_item_total:
  "total_scanned (snd (scan_item eng d p st)) = Suc (total_scanned st)"
  by (simp add: scan_item_def Let_def count_status_total split: prod.splits)

lemma scan_item_buckets:
  "clean_files (snd (scan_item eng d p st)) + malicious_files (snd (scan_item eng d p st))
     + suspicious_files (snd (scan_item eng d p st)) + errors (snd (scan_item eng d p st))
   = Suc (clean_files st + malicious_files st + suspicious_files st + errors st)"
  by (simp add: scan_item_def Let_def count_status_buckets split: prod.splits)

lemma scan_item_acts:
  "fst (scan_item eng d p st) = pre @ Emit (StatsUpdate s) # post \<Longrightarrow> False"
  by (auto simp: scan_item_def Let_def append_eq_Cons_conv Cons_eq_append_conv
      split: prod.splits if_splits)

lemma scan_item_completed: "completed (fst (scan_item eng d p st)) = 1"
  by (simp add: scan_item_def Let_def completed_def is_scan_def split: prod.splits)

lemma append_split_cases:
  "xs @ ys = pre @ a # post \<Longrightarrow>
     (\<exists>post'. xs = pre @ a # post' \<and> post = post' @ ys) \<or>
     (\<exists>pre'. pre = xs @ pre' \<and> ys = pre' @ a # post)"
  by (auto simp: append_eq_append_conv2 append_eq_Cons_conv Cons_eq_append_conv)

lemma completed_append: "completed (xs @ ys) = completed xs + completed ys"
  by (simp add: completed_def)

lemma run_loop_snapshots:
  "fst (run_loop eng d stop i st fs) = pre @ Emit (StatsUpdate s) # post \<Longrightarrow>
   clean_files st + malicious_files st + suspicious_files st + errors st = total_scanned st \<Longrightarrow>
   bucket_sum s = total s \<and> total s = total_scanned st + completed pre"
proof (induction fs arbitrary: i st pre)
  case Nil
  then show ?case by simp
next
  case (Cons p rest)
  show ?case
  proof (cases "stop i")
    case True
    with Cons.prems(1) show ?thesis
      by (auto simp: Cons_eq_append_conv)
  next
    case False
    obtain acts st' where si: "scan_item eng d p st = (acts, st')"
      by (cases "scan_item eng d p st")
    obtain more st'' where rl: "run_loop eng d stop (Suc i) st' rest = (more, st'')"
      by (cases "run_loop eng d stop (Suc i) st' rest")
    have tot: "total_scanned st' = Suc (total_scanned st)"
      using scan_item_total [of eng d p st] si by simp
    have inv: "clean_files st' + malicious_files st' + suspicious_files st' + errors st'
                 = total_scanned st'"
      using scan_item_buckets [of eng d p st] si tot Cons.prems(2) by simp
    have cmp: "completed acts = 1"
      using scan_item_completed [of eng d p st] si by simp
    from Cons.prems(1) False si rl
    have eq: "acts @ (Emit (StatsUpdate (snapshot st')) # Emit (Progress i) # more)
                = pre @ Emit (StatsUpdate s) # post"
      by simp
    from append_split_cases [OF eq]
    consider (inside) post' where "acts = pre @ Emit (StatsUpdate s) # post'"
      | (after) pre' where "pre = acts @ pre'"
          "Emit (StatsUpdate (snapshot st')) # Emit (Progress i) # more = pre' @ Emit (StatsUpdate s) # post"
      by blast
    then show ?thesis
    proof cases
      case inside
      with scan_item_acts [of eng d p st pre s post'] si show ?thesis by simp
    next
      case after
      show ?thesis
      proof (cases pre')
        case Nil
        with after have "s = snapshot st'" "pre = acts" by simp_all
        with inv tot cmp show ?thesis
          by (simp add: bucket_sum_def snapshot_def)
      next
        case (Cons a pre'')
        with after have a: "a = Emit (StatsUpdate (snapshot st'))"
          and r: "Emit (Progress i) # more = pre'' @ Emit (StatsUpdate s) # post"
          by simp_all
        from r obtain pre3 where p3: "pre'' = Emit (Progress i) # pre3"
          and m: "more = pre3 @ Emit (StatsUpdate s) # post"
          by (cases pre'') auto
        from m rl have "fst (run_loop eng d stop (Suc i) st' rest) = pre3 @ Emit (StatsUpdate s) # post"
          by simp
        from Cons.IH [OF this inv]
        have "bucket_sum s = total s \<and> total s = total_scanned st' + completed pre3" .
        moreover have "completed pre = 1 + completed pre3"
          using after(1) Cons a p3 cmp by (simp add: completed_append completed_def is_scan_def)
        ultimately show ?thesis using tot by simp
      qed
    qed
  qed
qed


lemma demo_run:
  "run demo_engine False (\<lambda>i. False) [''/d/clean.txt'', ''/d/virus.exe''] =
     [Scan ''/d/clean.txt'', Emit (ResultMsg ''[normal] /d/clean.txt''),
      Emit (StatsUpdate \<lparr>total = 1, clean = 1, malicious = 0, suspicious = 0, errors_count = 0\<rparr>),
      Emit (Progress 1),
      Scan ''/d/virus.exe'', Emit (ResultMsg ''[malicious-signature] /d/virus.exe''),
      Emit (StatsUpdate \<lparr>total = 2, clean = 1, malicious = 1, suspicious = 0, errors_count = 0\<rparr>),
      Emit (Progress 2), Emit Finished]"
  by (simp add: run_def scan_item_def scan_file_basic_def status_map_def demo_engine_def
      count_status_def snapshot_def ScanStats_init_def Let_def)

lemma scanned_append: "scanned (xs @ ys) = scanned xs @ scanned ys"
  by (induction xs rule: scanned.induct) simp_all

lemma scan_item_scanned: "scanned (fst (scan_item eng d p st)) = [p]"
  by (simp add: scan_item_def Let_def split: prod.splits)

lemma scan_item_no_progress:
  "fst (scan_item eng d p st) = pre @ Emit (Progress n) # post \<Longrightarrow> False"
  by (auto simp: scan_item_def Let_def append_eq_Cons_conv Cons_eq_append_conv
      split: prod.splits if_splits)

lemma run_loop_progress:
  "fst (run_loop eng d stop i st fs) = pre @ Emit (Progress n) # post \<Longrightarrow>
   Suc n = i + completed pre"
proof (induction fs arbitrary: i st pre)
  case Nil
  then show ?case by simp
next
  case (Cons p rest)
  show ?case
  proof (cases "stop i")
    case True
    with Cons.prems(1) show ?thesis
      by (auto simp: Cons_eq_append_conv)
  next
    case False
    obtain acts st' where si: "scan_item eng d p st = (acts, st')"
      by (cases "scan_item eng d p st")
    obtain more st'' where rl: "run_loop eng d stop (Suc i) st' rest = (more, st'')"
      by (cases "run_loop eng d stop (Suc i) st' rest")
    have cmp: "completed acts = 1"
      using scan_item_completed [of eng d p st] si by simp
    from Cons.prems(1) False si rl
    have eq: "acts @ (Emit (StatsUpdate (snapshot st')) # Emit (Progress i) # more)
                = pre @ Emit (Progress n) # post"
      by simp
    from append_split_cases [OF eq]
    consider (inside) post' where "acts = pre @ Emit (Progress n) # post'"
      | (after) pre' where "pre = acts @ pre'"
          "Emit (StatsUpdate (snapshot st')) # Emit (Progress i) # more = pre' @ Emit (Progress n) # post"
      by blast
    then show ?thesis
    proof cases
      case inside
      with scan_item_no_progress [of eng d p st pre n post'] si show ?thesis by simp
    next
      case after
      from after(2) obtain pre2 where p2: "pre' = Emit (StatsUpdate (snapshot st')) # pre2"
        and r: "Emit (Progress i) # more = pre2 @ Emit (Progress n) # post"
        by (cases pre') auto
      show ?thesis
      proof (cases pre2)
        case Nil
        with r have "n = i" by simp
        with after(1) p2 Nil cmp show ?thesis
          by (simp add: completed_append completed_def is_scan_def)
      next
        case (Cons a pre3)
        with r have a: "a = Emit (Progress i)" and m: "more = pre3 @ Emit (Progress n) # post"
          by simp_all
        from m rl have "fst (run_loop eng d stop (Suc i) st' rest) = pre3 @ Emit (Progress n) # post"
          by simp
        from Cons.IH [OF this] have "Suc n = Suc i + completed pre3" .
        moreover have "completed pre = 1 + completed pre3"
          using after(1) p2 Cons a cmp by (simp add: completed_append completed_def is_scan_def)
        ultimately show ?thesis by simp
      qed
    qed
  qed
qed

lemma run_loop_scanned_prefix:
  "prefix (scanned (fst (run_loop eng d stop i st fs))) fs"
proof (induction fs arbitrary: i st)
  case Nil
  show ?case by simp
next
  case (Cons p rest)
  show ?case
  proof (cases "stop i")
    case True
    then show ?thesis by simp
  next
    case False
    obtain acts st' where si: "scan_item eng d p st = (acts, st')"
      by (cases "scan_item eng d p st")
    obtain more st'' where rl: "run_loop eng d stop (Suc i) st' rest = (more, st'')"
      by (cases "run_loop eng d stop (Suc i) st' rest")
    have "scanned acts = [p]"
      using scan_item_scanned [of eng d p st] si by simp
    moreover have "prefix (scanned more) rest"
      using Cons.IH [of "Suc i" st'] rl by simp
    ultimately show ?thesis
      using False si rl by (simp add: scanned_append)
  qed
qed

lemma run_loop_cancel:
  "k < length fs \<Longrightarrow> stop (i + k) \<Longrightarrow> (\<forall>j<k. \<not> stop (i + j)) \<Longrightarrow>
   run_loop eng d stop i st fs =
     (fst (run_loop eng d (\<lambda>_. False) i st (take k fs)) @ [Emit (ResultMsg stopped_msg)],
      snd (run_loop eng d (\<lambda>_. False) i st (take k fs)))"
proof (induction k arbitrary: i st fs)
  case 0
  then show ?case by (cases fs) simp_all
next
  case (Suc k)
  then obtain p rest where fs: "fs = p # rest" by (cases fs) auto
  from Suc.prems(3) have ns: "\<not> stop i" by force
  have "run_loop eng d stop (Suc i) st' rest =
     (fst (run_loop eng d (\<lambda>_. False) (Suc i) st' (take k rest)) @ [Emit (ResultMsg stopped_msg)],
      snd (run_loop eng d (\<lambda>_. False) (Suc i) st' (take k rest)))" for st'
  proof (rule Suc.IH)
    show "k < length rest" using Suc.prems(1) fs by simp
    show "stop (Suc i + k)" using Suc.prems(2) by simp
    show "\<forall>j<k. \<not> stop (Suc i + j)"
    proof (intro allI impI)
      fix j assume "j < k"
      then have "Suc j < Suc k" by simp
      with Suc.prems(3) have "\<not> stop (i + Suc j)" by blast
      then show "\<not> stop (Suc i + j)" by simp
    qed
  qed
  then show ?case
    using ns fs by (simp add: Let_def split: prod.splits)
qed

lemma run_loop_never_stop_scanned:
  "scanned (fst (run_loop eng d (\<lambda>_. False) i st fs)) = fs"
proof (induction fs arbitrary: i st)
  case Nil
  show ?case by simp
next
  case (Cons p rest)
  obtain acts st' where si: "scan_item eng d p st = (acts, st')"
    by (cases "scan_item eng d p st")
  obtain more st'' where rl: "run_loop eng d (\<lambda>_. False) (Suc i) st' rest = (more, st'')"
    by (cases "run_loop eng d (\<lambda>_. False) (Suc i) st' rest")
  have "scanned acts = [p]"
    using scan_item_scanned [of eng d p st] si by simp
  moreover have "scanned more = rest"
    using Cons.IH [of "Suc i" st'] rl by simp
  ultimately show ?case
    using si rl by (simp add: scanned_append)
qed

lemma completed_scanned: "completed tr = length (scanned tr)"
  by (induction tr rule: scanned.induct) (simp_all add: completed_def is_scan_def)

lemma run_scanned_eq: "scanned (run eng d stop files) = scanned (fst (run_loop eng d stop 1 ScanStats_init files))"
  by (simp add: run_def scanned_append)

text \<open>
  Claim C1. Whenever the worker emits a statistics snapshot, its four buckets
  (clean, malicious, suspicious, errors) add up to its total, and the total is the
  number of per-file scans completed up to that emission. This holds in both scan
  modes, for any engine and whatever the stop flag does.
\<close>

theorem stats_snapshot_sum_and_total:
  "run eng d stop files = pre @ Emit (StatsUpdate s) # post \<Longrightarrow>
   clean s + malicious s + suspicious s + errors_count s = total s \<and> total s = completed pre"
proof -
  assume a: "run eng d stop files = pre @ Emit (StatsUpdate s) # post"
  let ?tr = "fst (run_loop eng d stop 1 ScanStats_init files)"
  from a have "?tr @ [Emit Finished] = pre @ Emit (StatsUpdate s) # post"
    by (simp add: run_def)
  from append_split_cases [OF this]
  obtain post' where "?tr = pre @ Emit (StatsUpdate s) # post'"
    by (auto simp: Cons_eq_append_conv)
  from run_loop_snapshots [OF this] show ?thesis
    by (simp add: ScanStats_init_def bucket_sum_def)
qed

theorem stats_snapshot_sum_and_total_witness:
  "run demo_engine False (\<lambda>i. False) [''/d/clean.txt'', ''/d/virus.exe''] =
     [Scan ''/d/clean.txt'', Emit (ResultMsg ''[normal] /d/clean.txt''),
      Emit (StatsUpdate \<lparr>total = 1, clean = 1, malicious = 0, suspicious = 0, errors_count = 0\<rparr>),
      Emit (Progress 1),
      Scan ''/d/virus.exe'', Emit (ResultMsg ''[malicious-signature] /d/virus.exe'')]
     @ Emit (StatsUpdate \<lparr>total = 2, clean = 1, malicious = 1, suspicious = 0, errors_count = 0\<rparr>)
     # [Emit (Progress 2), Emit Finished]
   \<and> (1::nat) + 1 + 0 + 0 = 2
   \<and> completed
        [Scan ''/d/clean.txt'', Emit (ResultMsg ''[normal] /d/clean.txt''),
         Emit (StatsUpdate \<lparr>total = 1, clean = 1, malicious = 0, suspicious = 0, errors_count = 0\<rparr>),
         Emit (Progress 1),
         Scan ''/d/virus.exe'', Emit (ResultMsg ''[malicious-signature] /d/virus.exe'')] = 2"
proof -
  have h: "run demo_engine False (\<lambda>i. False) [''/d/clean.txt'', ''/d/virus.exe''] =
     [Scan ''/d/clean.txt'', Emit (ResultMsg ''[normal] /d/clean.txt''),
      Emit (StatsUpdate \<lparr>total = 1, clean = 1, malicious = 0, suspicious = 0, errors_count = 0\<rparr>),
      Emit (Progress 1),
      Scan ''/d/virus.exe'', Emit (ResultMsg ''[malicious-signature] /d/virus.exe'')]
     @ Emit (StatsUpdate \<lparr>total = 2, clean = 1, malicious = 1, suspicious = 0, errors_count = 0\<rparr>)
     # [Emit (Progress 2), Emit Finished]"
    using demo_run by simp
  from stats_snapshot_sum_and_total [OF h] h show ?thesis by simp
qed

text \<open>
  Claim C10. The stop flag is read only at the top of an iteration. Every emitted
  progress index equals the number of scans completed at that moment, so it never
  exceeds the number of items completed in the job; the scanned paths are a prefix of
  the file list, each position scanned at most once; and when the flag is first seen
  set at iteration \<open>k + 1\<close>, the trace is the complete trace of the first \<open>k\<close>
  items (the item in flight when the flag was set is finished and reported) followed
  by the stop message and the end signal, with nothing of the later items.
\<close>

theorem cancellation_at_iteration_boundary:
  "(\<forall>pre n post. run eng d stop files = pre @ Emit (Progress n) # post \<longrightarrow>
        n = completed pre \<and> n \<le> completed (run eng d stop files))
   \<and> prefix (scanned (run eng d stop files)) files
   \<and> (distinct files \<longrightarrow> distinct (scanned (run eng d stop files)))
   \<and> (k < length files \<and> stop (Suc k) \<and> (\<forall>j<k. \<not> stop (Suc j)) \<longrightarrow>
        run eng d stop files =
          butlast (run eng d (\<lambda>i. False) (take k files))
            @ [Emit (ResultMsg stopped_msg), Emit Finished]
        \<and> scanned (run eng d stop files) = take k files)"
proof (intro conjI allI impI)
  fix pre n post
  assume a: "run eng d stop files = pre @ Emit (Progress n) # post"
  let ?tr = "fst (run_loop eng d stop 1 ScanStats_init files)"
  from a have "?tr @ [Emit Finished] = pre @ Emit (Progress n) # post"
    by (simp add: run_def)
  from append_split_cases [OF this]
  obtain post' where "?tr = pre @ Emit (Progress n) # post'"
    by (auto simp: Cons_eq_append_conv)
  from run_loop_progress [OF this] show n: "n = completed pre" by simp
  show "n \<le> completed (run eng d stop files)"
    using n a by (simp add: completed_append)
next
  show p: "prefix (scanned (run eng d stop files)) files"
    using run_loop_scanned_prefix [of eng d stop 1 ScanStats_init files]
    by (simp add: run_scanned_eq)
  assume "distinct files"
  moreover from p obtain zs where "files = scanned (run eng d stop files) @ zs"
    by (auto simp: prefix_def)
  ultimately show "distinct (scanned (run eng d stop files))"
    by (metis distinct_append)
next
  assume h: "k < length files \<and> stop (Suc k) \<and> (\<forall>j<k. \<not> stop (Suc j))"
  then have c: "run_loop eng d stop 1 ScanStats_init files =
     (fst (run_loop eng d (\<lambda>_. False) 1 ScanStats_init (take k files)) @ [Emit (ResultMsg stopped_msg)],
      snd (run_loop eng d (\<lambda>_. False) 1 ScanStats_init (take k files)))"
    using run_loop_cancel [of k files stop 1 eng d ScanStats_init] by simp
  then show r: "run eng d stop files =
          butlast (run eng d (\<lambda>i. False) (take k files))
            @ [Emit (ResultMsg stopped_msg), Emit Finished]"
    by (simp add: run_def butlast_append)
  show "scanned (run eng d stop files) = take k files"
    using c by (simp add: run_scanned_eq scanned_append run_loop_never_stop_scanned)
qed

theorem cancellation_at_iteration_boundary_witness:
  "(1::nat) < length [''/d/clean.txt'', ''/d/virus.exe'']
   \<and> (\<lambda>i::nat. 2 \<le> i) (Suc 1) \<and> \<not> (\<lambda>i::nat. 2 \<le> i) (Suc 0)
   \<and> run demo_engine False (\<lambda>i. 2 \<le> i) [''/d/clean.txt'', ''/d/virus.exe''] =
       [Scan ''/d/clean.txt'', Emit (ResultMsg ''[normal] /d/clean.txt''),
        Emit (StatsUpdate \<lparr>total = 1, clean = 1, malicious = 0, suspicious = 0, errors_count = 0\<rparr>),
        Emit (Progress 1), Emit (ResultMsg stopped_msg), Emit Finished]
   \<and> scanned (run demo_engine False (\<lambda>i. 2 \<le> i) [''/d/clean.txt'', ''/d/virus.exe''])
       = [''/d/clean.txt'']"
proof -
  have b: "butlast (run demo_engine False (\<lambda>i. False) (take 1 [''/d/clean.txt'', ''/d/virus.exe''])) =
       [Scan ''/d/clean.txt'', Emit (ResultMsg ''[normal] /d/clean.txt''),
        Emit (StatsUpdate \<lparr>total = 1, clean = 1, malicious = 0, suspicious = 0, errors_count = 0\<rparr>),
        Emit (Progress 1)]"
    by (simp add: run_def scan_item_def scan_file_basic_def status_map_def demo_engine_def
        count_status_def snapshot_def ScanStats_init_def Let_def)
  have h: "(1::nat) < length [''/d/clean.txt'', ''/d/virus.exe''] \<and> (2::nat) \<le> Suc 1
             \<and> (\<forall>j<1::nat. \<not> 2 \<le> Suc j)"
    by simp
  from cancellation_at_iteration_boundary
         [of demo_engine False "\<lambda>i. 2 \<le> i" "[''/d/clean.txt'', ''/d/virus.exe'']" 1] h
  have "run demo_engine False (\<lambda>i. 2 \<le> i) [''/d/clean.txt'', ''/d/virus.exe''] =
          butlast (run demo_engine False (\<lambda>i. False) (take 1 [''/d/clean.txt'', ''/d/virus.exe'']))
            @ [Emit (ResultMsg stopped_msg), Emit Finished]
        \<and> scanned (run demo_engine False (\<lambda>i. 2 \<le> i) [''/d/clean.txt'', ''/d/virus.exe''])
            = take 1 [''/d/clean.txt'', ''/d/virus.exe'']"
    by blast
  with b show ?thesis by simp
qed

section \<open>Properties of the work enumeration\<close>

text \<open>
  The inner loop in closed form: it appends names until the list is longer than the
  cap, and at least one name whenever the directory has one.
\<close>

lemma add_files_eq:
  "add_files cap dir names fl =
     fl @ map (os_path_join dir) (take (max 1 (Suc cap - length fl)) names)"
proof (induction names arbitrary: fl)
  case Nil
  show ?case by simp
next
  case (Cons name names)
  show ?case
  proof (cases "length fl < cap")
    case True
    then show ?thesis
      by (simp add: Let_def Cons.IH Suc_diff_le max_def)
  next
    case False
    then have "max 1 (Suc cap - length fl) = Suc 0"
      by (auto simp: max_def)
    with False show ?thesis
      by (simp add: Let_def)
  qed
qed

lemma length_add_files:
  "length (add_files cap dir names fl) =
     length fl + min (max 1 (Suc cap - length fl)) (length names)"
  by (simp add: add_files_eq)

text \<open>
  Claim C3 (the enumerated list stops growing at the cap and never exceeds it) fails
  on the code. The source's comment on the check reads "limit to at most 10000
  files", but the check is \<open>len(file_list) > 10000\<close> and its \<open>break\<close> leaves the
  inner loop only: a root directory with 10001 files fills the list to 10001 entries,
  and every later directory still adds its first file. On the walk
  \<open>big_directory\<close> the full-system scan starts a job of 10003 files.
\<close>

theorem full_system_scan_exceeds_cap:
  "\<exists>fl. full_system_scan True big_directory = Some fl \<and> length fl = 10003 \<and>
     fl ! 10001 = ''/a/x'' \<and> fl ! 10002 = ''/b/y''"
  apply (simp add: full_system_scan_def Let_def big_directory_def add_files_eq os_path_join_def)
  apply (simp add: nth_append)
  done

section \<open>Properties of hash registration\<close>

text \<open>
  Claim C9, as amended. The only validation before the engine call is on the length
  of the input once surrounding white space is stripped and the rest is put in lower
  case: with the capability present, a non-empty threat name and both texts
  encodable as UTF-8, \<open>engine.add_hash\<close> is called exactly when the stripped,
  lower-cased input has 32 code points (MD5) or 64 (SHA256). Inputs for which that
  length is anything else, 31, 33, 63 and 65 among them, are rejected without a
  call. The characters are never checked to be hexadecimal digits.
\<close>

theorem add_hash_checks_length_only:
  "adapter_invoked
     (add_hash str_lower has engine_add_hash hash_text name_text severity combo_text)
   = (has \<and> strip name_text \<noteq> [] \<and>
      length (str_lower (strip hash_text)) = (if combo_text = ''SHA256'' then 64 else 32) \<and>
      encodable (str_lower (strip hash_text)) \<and> encodable (strip name_text))"
  by (auto simp: add_hash_def adapter_invoked_def Let_def split: option.splits)

theorem add_hash_checks_length_only_witness:
  "adapter_invoked
     (add_hash lower_ascii_0130 True (\<lambda>c. Some 7)
        (code_points '' D41D8CD98F00B204E9800998ECF8427E'') (code_points ''Empty file'') 2 ''MD5'')
   \<and> \<not> adapter_invoked
     (add_hash lower_ascii_0130 True (\<lambda>c. Some 7)
        (code_points ''d41d8cd98f00b204e9800998ecf8427'') (code_points ''Empty file'') 2 ''MD5'')"
  using add_hash_checks_length_only
          [of lower_ascii_0130 True "\<lambda>c. Some 7"
              "code_points '' D41D8CD98F00B204E9800998ECF8427E''" "code_points ''Empty file''" 2
              "''MD5''"]
        add_hash_checks_length_only
          [of lower_ascii_0130 True "\<lambda>c. Some 7"
              "code_points ''d41d8cd98f00b204e9800998ecf8427''" "code_points ''Empty file''" 2
              "''MD5''"]
  by (simp add: strip_def lower_ascii_0130_def py_isspace_def code_points_def encodable_def)

text \<open>
  The claim as stated fails in three ways: a string of 32 letters \<open>z\<close> is registered
  as an MD5 hash; a 33-character input (a blank, then 32 hexadecimal digits) is
  accepted; and a 31-character input that starts with U+0130 is accepted, because
  lower case makes it 32 code points long, while the same with one more digit, 32
  characters, is refused.
\<close>

theorem add_hash_non_hex_counterexample:
  "\<not> is_hex (code_points ''zzzzzzzzzzzzzzzzzzzzzzzzzzzzzzzz'')
   \<and> add_hash lower_ascii_0130 True (\<lambda>c. Some 7)
        (code_points ''zzzzzzzzzzzzzzzzzzzzzzzzzzzzzzzz'') (code_points ''EICAR'') 3 ''MD5''
     = Registered \<lparr>hash_arg = code_points ''zzzzzzzzzzzzzzzzzzzzzzzzzzzzzzzz'',
                   threat_arg = code_points ''EICAR'',
                   severity_arg = 3, is_sha256_arg = False\<rparr> 7
   \<and> length (code_points '' 0123456789abcdef0123456789abcdef'') = 33
   \<and> adapter_invoked (add_hash lower_ascii_0130 True (\<lambda>c. Some 7)
        (code_points '' 0123456789abcdef0123456789abcdef'') (code_points ''EICAR'') 3 ''MD5'')
   \<and> length (304 # code_points ''0123456789abcdef0123456789abcd'') = 31
   \<and> adapter_invoked (add_hash lower_ascii_0130 True (\<lambda>c. Some 7)
        (304 # code_points ''0123456789abcdef0123456789abcd'') (code_points ''EICAR'') 3 ''MD5'')
   \<and> length (304 # code_points ''0123456789abcdef0123456789abcde'') = 32
   \<and> add_hash lower_ascii_0130 True (\<lambda>c. Some 7)
        (304 # code_points ''0123456789abcdef0123456789abcde'') (code_points ''EICAR'') 3 ''MD5''
     = WrongLength 32"
  by (simp add: add_hash_def adapter_invoked_def Let_def is_hex_def is_hex_char_def
      strip_def lower_ascii_0130_def py_isspace_def code_points_def encodable_def)

section \<open>Properties of the quarantine store\<close>

lemma clear_loop_stops:
  "\<forall>n \<in> set pre. denied (os_path_join qdir n) = None \<and> fs (os_path_join qdir n) \<noteq> None \<Longrightarrow>
   distinct (map (os_path_join qdir) pre) \<Longrightarrow>
   denied (os_path_join qdir bad) = Some e \<Longrightarrow>
   clear_loop denied qdir (pre @ bad # post) fs =
     (remove_all (map (os_path_join qdir) pre) fs, Some e)"
proof (induction pre arbitrary: fs)
  case Nil
  then show ?case by (simp add: os_remove_def remove_all_def)
next
  case (Cons n pre)
  let ?p = "os_path_join qdir n"
  have step: "os_remove (denied ?p) ?p fs = Inr (fs(?p := None))"
    using Cons.prems(1) by (auto simp: os_remove_def)
  have "clear_loop denied qdir (pre @ bad # post) (fs(?p := None)) =
     (remove_all (map (os_path_join qdir) pre) (fs(?p := None)), Some e)"
  proof (rule Cons.IH)
    show "\<forall>m\<in>set pre. denied (os_path_join qdir m) = None \<and> (fs(?p := None)) (os_path_join qdir m) \<noteq> None"
    proof
      fix m assume m: "m \<in> set pre"
      then have "os_path_join qdir m \<in> os_path_join qdir ` set pre" by (rule imageI)
      with Cons.prems(2) have "os_path_join qdir m \<noteq> ?p" by auto
      with m Cons.prems(1)
      show "denied (os_path_join qdir m) = None \<and> (fs(?p := None)) (os_path_join qdir m) \<noteq> None"
        by simp
    qed
    show "distinct (map (os_path_join qdir) pre)" using Cons.prems(2) by simp
    show "denied (os_path_join qdir bad) = Some e" by (rule Cons.prems(3))
  qed
  moreover have "remove_all (map (os_path_join qdir) pre) (fs(?p := None))
                   = remove_all (map (os_path_join qdir) (n # pre)) fs"
    by (auto simp: remove_all_def)
  ultimately show ?case using step by simp
qed

lemma clear_loop_all:
  "\<forall>n \<in> set names. denied (os_path_join qdir n) = None \<and> fs (os_path_join qdir n) \<noteq> None \<Longrightarrow>
   distinct (map (os_path_join qdir) names) \<Longrightarrow>
   clear_loop denied qdir names fs = (remove_all (map (os_path_join qdir) names) fs, None)"
proof (induction names arbitrary: fs)
  case Nil
  then show ?case by (simp add: remove_all_def)
next
  case (Cons n names)
  let ?p = "os_path_join qdir n"
  have step: "os_remove (denied ?p) ?p fs = Inr (fs(?p := None))"
    using Cons.prems(1) by (auto simp: os_remove_def)
  have "clear_loop denied qdir names (fs(?p := None)) =
     (remove_all (map (os_path_join qdir) names) (fs(?p := None)), None)"
  proof (rule Cons.IH)
    show "\<forall>m\<in>set names. denied (os_path_join qdir m) = None \<and> (fs(?p := None)) (os_path_join qdir m) \<noteq> None"
    proof
      fix m assume m: "m \<in> set names"
      then have "os_path_join qdir m \<in> os_path_join qdir ` set names" by (rule imageI)
      with Cons.prems(2) have "os_path_join qdir m \<noteq> ?p" by auto
      with m Cons.prems(1)
      show "denied (os_path_join qdir m) = None \<and> (fs(?p := None)) (os_path_join qdir m) \<noteq> None"
        by simp
    qed
    show "distinct (map (os_path_join qdir) names)" using Cons.prems(2) by simp
  qed
  moreover have "remove_all (map (os_path_join qdir) names) (fs(?p := None))
                   = remove_all (map (os_path_join qdir) (n # names)) fs"
    by (auto simp: remove_all_def)
  ultimately show ?case using step by simp
qed

text \<open>
  Claim C7, as amended. \<open>clear_quarantine\<close> removes the listed files in listing
  order and stops at the first removal that raises: the files before it are gone, the
  failing file and every file after it stay, and an error dialog is shown. Only when
  no removal raises is every listed file deleted. Nothing is returned, so there is no
  count of failures; a declined confirmation changes nothing.
\<close>

theorem clear_quarantine_stops_at_first_failure:
  assumes "\<forall>n \<in> set names. fs (os_path_join qdir n) \<noteq> None"
    and "distinct (map (os_path_join qdir) names)"
  shows
    "((\<forall>n \<in> set names. denied (os_path_join qdir n) = None) \<longrightarrow>
        clear_quarantine True qdir (Inr names) denied fs =
          (remove_all (map (os_path_join qdir) names) fs,
           [Question ''clear all'', Information ''quarantine emptied'']))
     \<and> (\<forall>pre bad post e.
          names = pre @ bad # post \<and> (\<forall>n \<in> set pre. denied (os_path_join qdir n) = None)
            \<and> denied (os_path_join qdir bad) = Some e \<longrightarrow>
          clear_quarantine True qdir (Inr names) denied fs =
            (remove_all (map (os_path_join qdir) pre) fs,
             [Question ''clear all'', Critical ''delete failed'']))
     \<and> clear_quarantine False qdir (Inr names) denied fs = (fs, [Question ''clear all''])"
proof (intro conjI allI impI)
  assume "\<forall>n \<in> set names. denied (os_path_join qdir n) = None"
  with assms have "clear_loop denied qdir names fs =
      (remove_all (map (os_path_join qdir) names) fs, None)"
    by (intro clear_loop_all) auto
  then show "clear_quarantine True qdir (Inr names) denied fs =
          (remove_all (map (os_path_join qdir) names) fs,
           [Question ''clear all'', Information ''quarantine emptied''])"
    by (simp add: clear_quarantine_def)
next
  fix pre bad post e
  assume h: "names = pre @ bad # post \<and> (\<forall>n \<in> set pre. denied (os_path_join qdir n) = None)
            \<and> denied (os_path_join qdir bad) = Some e"
  with assms have "clear_loop denied qdir (pre @ bad # post) fs =
      (remove_all (map (os_path_join qdir) pre) fs, Some e)"
    by (intro clear_loop_stops) auto
  with h show "clear_quarantine True qdir (Inr names) denied fs =
            (remove_all (map (os_path_join qdir) pre) fs,
             [Question ''clear all'', Critical ''delete failed''])"
    by (simp add: clear_quarantine_def)
next
  show "clear_quarantine False qdir (Inr names) denied fs = (fs, [Question ''clear all''])"
    by (simp add: clear_quarantine_def)
qed

theorem clear_quarantine_stops_at_first_failure_witness:
  "clear_quarantine True ''/q''
      (Inr [''20260101_120000_aaaaaaaa.exe'', ''20260101_120001_bbbbbbbb.bin''])
      (\<lambda>p. if p = ''/q/20260101_120001_bbbbbbbb.bin'' then Some PermissionError else None)
      two_file_store
   = (remove_all [''/q/20260101_120000_aaaaaaaa.exe''] two_file_store,
      [Question ''clear all'', Critical ''delete failed''])"
proof -
  let ?names = "[''20260101_120000_aaaaaaaa.exe'', ''20260101_120001_bbbbbbbb.bin'']"
  let ?denied = "\<lambda>p. if p = ''/q/20260101_120001_bbbbbbbb.bin'' then Some PermissionError else None"
  have a: "\<forall>n \<in> set ?names. two_file_store (os_path_join ''/q'' n) \<noteq> None"
    by (simp add: two_file_store_def os_path_join_def)
  have b: "distinct (map (os_path_join ''/q'') ?names)"
    by (simp add: os_path_join_def)
  have c: "?names = [''20260101_120000_aaaaaaaa.exe''] @ ''20260101_120001_bbbbbbbb.bin'' # []
      \<and> (\<forall>n \<in> set [''20260101_120000_aaaaaaaa.exe'']. ?denied (os_path_join ''/q'' n) = None)
      \<and> ?denied (os_path_join ''/q'' ''20260101_120001_bbbbbbbb.bin'') = Some PermissionError"
    by (simp add: os_path_join_def)
  from clear_quarantine_stops_at_first_failure [OF a b, of ?denied] c
  have "clear_quarantine True ''/q'' (Inr ?names) ?denied two_file_store =
      (remove_all (map (os_path_join ''/q'') [''20260101_120000_aaaaaaaa.exe'']) two_file_store,
       [Question ''clear all'', Critical ''delete failed''])"
    by blast
  then show ?thesis by (simp add: os_path_join_def)
qed

text \<open>
  The claim as stated fails: when the first of two files cannot be removed, the
  second, which could be, is still there afterwards.
\<close>

theorem clear_quarantine_counterexample:
  "(\<lambda>p. if p = ''/q/20260101_120000_aaaaaaaa.exe'' then Some PermissionError else None)
      ''/q/20260101_120001_bbbbbbbb.bin'' = None
   \<and> fst (clear_quarantine True ''/q''
        (Inr [''20260101_120000_aaaaaaaa.exe'', ''20260101_120001_bbbbbbbb.bin''])
        (\<lambda>p. if p = ''/q/20260101_120000_aaaaaaaa.exe'' then Some PermissionError else None)
        two_file_store) ''/q/20260101_120001_bbbbbbbb.bin'' = Some (Bytes ''data'')
   \<and> snd (clear_quarantine True ''/q''
        (Inr [''20260101_120000_aaaaaaaa.exe'', ''20260101_120001_bbbbbbbb.bin''])
        (\<lambda>p. if p = ''/q/20260101_120000_aaaaaaaa.exe'' then Some PermissionError else None)
        two_file_store) = [Question ''clear all'', Critical ''delete failed'']"
  by (simp add: clear_quarantine_def os_remove_def os_path_join_def two_file_store_def)

section \<open>Properties of the quarantine of one file\<close>

lemma char_of_numeral_bits:
  "char_of (numeral k :: nat) =
     Char (odd (numeral k :: nat)) (odd (numeral k div 2 :: nat)) (odd (numeral k div 4 :: nat))
          (odd (numeral k div 8 :: nat)) (odd (numeral k div 16 :: nat)) (odd (numeral k div 32 :: nat))
          (odd (numeral k div 64 :: nat)) (odd (numeral k div 128 :: nat))"
  by (simp add: char_of_def bit_iff_odd)

lemma quarantine_path_locked:
  "quarantine_path_of locked_world ''/srv/share/report.doc'' = ''/opt/av/quarantine/20260108_090507_e98d2f00.doc''"
  by (simp add: quarantine_path_of_def quarantine_filename_def locked_world_def basename_def
      splitext_def strftime_compact_def zero_pad_def decimal.simps demo_md5_def os_path_join_def Let_def char_of_numeral_bits)

text \<open>
  Claim C8, as amended. The quarantine name is the timestamp, the first eight
  digits of the digest of the base name without extension, and the extension. For two
  files with the same base name the digest and the extension are the same, so the
  two names differ exactly when the two timestamps differ; the timestamp has a
  resolution of one second, and the directory of the original is not part of the
  name.
\<close>

theorem quarantine_filename_same_basename:
  "basename p1 = basename p2 \<Longrightarrow>
   (quarantine_filename h d1 p1 = quarantine_filename h d2 p2)
     = (strftime_compact d1 = strftime_compact d2)"
  by (simp add: quarantine_filename_def Let_def split: prod.splits)

lemma attempt_body_denied:
  "attempt_outcome w a = RemoveFails PermissionError \<Longrightarrow> fs path = Some data \<Longrightarrow>
   attempt_body w path qp a fs = Inl (PermissionError, fs(qp \<mapsto> data))"
  by (simp add: attempt_body_def os_remove_def Let_def)

lemma retry_all_denied:
  "attempts \<noteq> [] \<Longrightarrow> fs path = Some data \<Longrightarrow>
   \<forall>a \<in> set attempts. attempt_outcome w a = RemoveFails PermissionError \<Longrightarrow>
   \<exists>le acts'. retry_loop w path qp attempts le0 fs acts = LoopEnd False le (fs(qp \<mapsto> data)) acts'
      \<and> (\<forall>x \<in> set acts'. x \<in> set acts \<or> is_force_close x)"
proof (induction attempts arbitrary: le0 fs acts)
  case Nil
  then show ?case by simp
next
  case outer: (Cons a rest)
  let ?fs1 = "fs(qp \<mapsto> data)"
  have body: "attempt_body w path qp a fs = Inl (PermissionError, ?fs1)"
    using outer.prems by (simp add: attempt_body_denied)
  show ?case
  proof (cases "a < max_retries - 1")
    case False
    with body have "retry_loop w path qp (a # rest) le0 fs acts
                      = LoopEnd False (Some PermissionError) ?fs1 acts"
      by simp
    then show ?thesis by blast
  next
    case True
    define acts1 where "acts1 =
       (if a \<ge> 2 then
          acts @ [ForceClose a (fst (force_close_file_handles (os_path_abspath w) (psutil_at w a) path))]
        else acts)"
    have a1: "\<forall>x \<in> set acts1. x \<in> set acts \<or> is_force_close x"
      by (auto simp: acts1_def is_force_close_def)
    have step: "retry_loop w path qp (a # rest) le0 fs acts
                  = retry_loop w path qp rest (Some PermissionError) ?fs1 acts1"
      using body True by (simp add: acts1_def Let_def)
    show ?thesis
    proof (cases "rest = []")
      case True
      with step have "retry_loop w path qp (a # rest) le0 fs acts
                        = LoopEnd False (Some PermissionError) ?fs1 acts1"
        by simp
      with a1 show ?thesis by blast
    next
      case False
      have p1: "?fs1 path = Some data" using outer.prems(2) by simp
      have all: "\<forall>b \<in> set rest. attempt_outcome w b = RemoveFails PermissionError"
        using outer.prems(3) by simp
      from outer.IH [of ?fs1 "Some PermissionError" acts1, OF False p1 all]
      obtain le acts' where
        r: "retry_loop w path qp rest (Some PermissionError) ?fs1 acts1
               = LoopEnd False le (?fs1(qp \<mapsto> data)) acts'"
        and s: "\<forall>x \<in> set acts'. x \<in> set acts1 \<or> is_force_close x"
        by blast
      from s a1 have "\<forall>x \<in> set acts'. x \<in> set acts \<or> is_force_close x" by blast
      moreover from r step have "retry_loop w path qp (a # rest) le0 fs acts
               = LoopEnd False le ?fs1 acts'"
        by simp
      ultimately show ?thesis by blast
    qed
  qed
qed


lemma retry_loop_nonempty: "[0..<max_retries] \<noteq> []"
  by (simp add: max_retries_def)

text \<open>
  Claim C2. An existing file whose removal raises \<open>PermissionError\<close> in each of the
  five attempts (so that every attempt reads and copies it first): the call ends
  without the failure dialog of its exception handler, the sidecar is written with
  \<open>original_deleted\<close> false, the quarantine path holds the bytes of the original, and
  the original is still there with the same bytes. The statement supposes that the
  write of the sidecar itself succeeds and that the original is not the sidecar's own
  path.
\<close>

theorem quarantine_locked_file_partial_success:
  assumes "fs path = Some data"
    and "\<forall>a < max_retries. attempt_outcome w a = RemoveFails PermissionError"
    and "meta_write_error w = None"
    and "path \<noteq> meta_path_of w path"
  shows
    "result_fs (quarantine_file w path threat fs stats) (meta_path_of w path) =
        Some (Meta \<lparr>original_path = path, original_filename = basename path,
                    record_threat_name = threat,
                    quarantine_time = strftime_long (now_meta w),
                    original_deleted = False\<rparr>)
     \<and> result_fs (quarantine_file w path threat fs stats) (quarantine_path_of w path) = Some data
     \<and> result_fs (quarantine_file w path threat fs stats) path = Some data
     \<and> Dialog (Critical ''quarantine failed'')
          \<notin> set (result_actions (quarantine_file w path threat fs stats))
     \<and> last (result_actions (quarantine_file w path threat fs stats))
          = Dialog (Warning ''partial success'')
     \<and> quarantined (result_stats (quarantine_file w path threat fs stats))
          = quarantined stats + 1"
proof -
  let ?qp = "quarantine_path_of w path"
  let ?mp = "meta_path_of w path"
  have all: "\<forall>a \<in> set [0..<max_retries]. attempt_outcome w a = RemoveFails PermissionError"
    using assms(2) by simp
  from retry_all_denied [where attempts="[0..<max_retries]" and fs=fs and path=path and data=data
         and w=w and qp="?qp" and ?le0.0=None and acts="[]", OF retry_loop_nonempty assms(1) all]
  obtain le acts where
    r: "retry_loop w path ?qp [0..<max_retries] None fs [] = LoopEnd False le (fs(?qp \<mapsto> data)) acts"
    and fc: "\<forall>x \<in> set acts. is_force_close x"
    by auto
  have neq: "?qp \<noteq> ?mp" by (simp add: meta_path_of_def)
  have nc: "Dialog (Critical ''quarantine failed'') \<notin> set acts"
    using fc by (auto simp: is_force_close_def)
  have ex: "fs path \<noteq> None" using assms(1) by simp
  show ?thesis
    using r assms(1,3,4) neq nc ex
    by (simp add: quarantine_file_def result_fs_def result_actions_def result_stats_def Let_def)
qed







lemma locked_world_fields:
  "attempt_outcome locked_world n = RemoveFails PermissionError"
  "psutil_at locked_world n = (if n = 2 then Processes [editor] else Processes [])"
  "os_path_abspath locked_world = (\<lambda>p. p)"
  "manual_delete_reply locked_world = False"
  "meta_write_error locked_world = None"
  "quarantine_dir locked_world = ''/opt/av/quarantine''"
  by (simp_all add: locked_world_def)












theorem quarantine_locked_file_partial_success_witness:
  "share_fs ''/srv/share/report.doc'' = Some (Bytes ''macro'')
   \<and> result_fs (quarantine_file locked_world ''/srv/share/report.doc'' ''Macro.Dropper''
         share_fs ScanStats_init) ''/opt/av/quarantine/20260108_090507_e98d2f00.doc.meta''
       = Some (Meta \<lparr>original_path = ''/srv/share/report.doc'',
                     original_filename = ''report.doc'',
                     record_threat_name = ''Macro.Dropper'',
                     quarantine_time = ''2026-01-08 09:05:20'',
                     original_deleted = False\<rparr>)
   \<and> result_fs (quarantine_file locked_world ''/srv/share/report.doc'' ''Macro.Dropper''
         share_fs ScanStats_init) ''/opt/av/quarantine/20260108_090507_e98d2f00.doc'' = Some (Bytes ''macro'')
   \<and> result_fs (quarantine_file locked_world ''/srv/share/report.doc'' ''Macro.Dropper''
         share_fs ScanStats_init) ''/srv/share/report.doc'' = Some (Bytes ''macro'')
   \<and> last (result_actions (quarantine_file locked_world ''/srv/share/report.doc''
         ''Macro.Dropper'' share_fs ScanStats_init)) = Dialog (Warning ''partial success'')"
proof -
  have h1: "share_fs ''/srv/share/report.doc'' = Some (Bytes ''macro'')"
    by (simp add: share_fs_def)
  have h2: "\<forall>a < max_retries. attempt_outcome locked_world a = RemoveFails PermissionError"
    by (simp add: locked_world_fields)
  have h3: "meta_write_error locked_world = None"
    by (simp add: locked_world_fields)
  have mp: "meta_path_of locked_world ''/srv/share/report.doc''
              = ''/opt/av/quarantine/20260108_090507_e98d2f00.doc.meta''"
    by (simp add: meta_path_of_def quarantine_path_locked)
  have h4: "''/srv/share/report.doc'' \<noteq> meta_path_of locked_world ''/srv/share/report.doc''"
    by (simp add: mp)
  have bn: "basename ''/srv/share/report.doc'' = ''report.doc''"
    by (simp add: basename_def)
  have tm: "strftime_long (now_meta locked_world) = ''2026-01-08 09:05:20''"
    by (simp add: locked_world_def strftime_long_def zero_pad_def decimal.simps
        char_of_numeral_bits)
  from quarantine_locked_file_partial_success
         [where fs=share_fs and path="''/srv/share/report.doc''" and data="Bytes ''macro''"
            and w=locked_world and threat="''Macro.Dropper''" and stats=ScanStats_init,
          OF h1 h2 h3 h4]
  show ?thesis
    by (simp add: h1 mp bn tm quarantine_path_locked)
qed

theorem quarantine_filename_same_basename_witness:
  "basename ''/home/a/invoice.exe'' = basename ''/home/b/invoice.exe''
   \<and> (quarantine_filename demo_md5 (now_name locked_world) ''/home/a/invoice.exe''
        = quarantine_filename demo_md5 (now_meta locked_world) ''/home/b/invoice.exe'')
       = (strftime_compact (now_name locked_world) = strftime_compact (now_meta locked_world))"
proof -
  have b: "basename ''/home/a/invoice.exe'' = basename ''/home/b/invoice.exe''"
    by (simp add: basename_def)
  from quarantine_filename_same_basename [OF b] b show ?thesis by simp
qed

text \<open>
  The claim as stated fails: two different files named \<open>invoice.exe\<close>, quarantined
  within the same second, get the same quarantine name.
\<close>

theorem quarantine_filename_collision_counterexample:
  "''/home/a/invoice.exe'' \<noteq> ''/home/b/invoice.exe''
   \<and> basename ''/home/a/invoice.exe'' = basename ''/home/b/invoice.exe''
   \<and> quarantine_filename demo_md5
        \<lparr>dt_year = 2026, dt_month = 1, dt_day = 8, dt_hour = 9, dt_minute = 5,
         dt_second = 7, dt_microsecond = 120000\<rparr> ''/home/a/invoice.exe''
       = ''20260108_090507_e5f96ae0.exe''
   \<and> quarantine_filename demo_md5
        \<lparr>dt_year = 2026, dt_month = 1, dt_day = 8, dt_hour = 9, dt_minute = 5,
         dt_second = 7, dt_microsecond = 870000\<rparr> ''/home/b/invoice.exe''
       = ''20260108_090507_e5f96ae0.exe''"
  by (simp add: quarantine_filename_def basename_def splitext_def strftime_compact_def
      zero_pad_def decimal.simps demo_md5_def Let_def char_of_numeral_bits)

section \<open>Properties of the window's side of a scan\<close>






















lemma covered_mono: "covered S tr \<Longrightarrow> S \<subseteq> S' \<Longrightarrow> covered S' tr"
proof (induction S tr arbitrary: S' rule: covered.induct)
  case (2 S p tr)
  have "insert p S \<subseteq> insert p S'" using "2.prems"(2) by auto
  moreover have "covered (insert p S) tr" using "2.prems"(1) by simp
  ultimately have "covered (insert p S') tr" by (rule "2.IH" [rotated])
  then show ?case by simp
qed auto























end
